theory Spec2Isabelle
  imports Main "HOL-Library.Multiset" "HOL-Library.Sublist"
begin

section \<open>Python values\<close>

text \<open>
  The values that cross the boundary to the external scorer and to the rule set are
  dynamically typed. Only the shapes the pipeline inspects are modelled: \<open>None\<close>,
  booleans, integers, strings and dictionaries. A dictionary is an association list read
  with \<open>map_of\<close> (the first binding of a key is the one that counts).
\<close>

datatype pyval =
    PyNone
  | PyBool bool
  | PyInt int
  | PyStr string
  | PyDict "(string \<times> pyval) list"

type_synonym pydict = "(string \<times> pyval) list"

text \<open>Truth value testing, as \<open>if\<close>, \<open>and\<close>, \<open>or\<close> and \<open>not\<close> apply it.\<close>

fun truthy :: "pyval \<Rightarrow> bool" where
  "truthy PyNone = False"
| "truthy (PyBool b) = b"
| "truthy (PyInt i) = (i \<noteq> 0)"
| "truthy (PyStr s) = (s \<noteq> [])"
| "truthy (PyDict d) = (d \<noteq> [])"

text \<open>
  \<open>d[k]\<close> raises \<open>KeyError(k)\<close> when the key is missing. The only thing the pipeline
  does with a caught exception is \<open>str(e)\<close>, so a raised exception is represented by
  that text. For a \<open>KeyError\<close> it is the \<open>repr\<close> of the key, which for the plain
  identifiers used as keys here is the key between single quotes.
\<close>

definition key_error_str :: "string \<Rightarrow> string" where
  "key_error_str k = [CHR 0x27] @ k @ [CHR 0x27]"

definition getitem :: "pydict \<Rightarrow> string \<Rightarrow> string + pyval" where
  "getitem d k = (case map_of d k of None \<Rightarrow> Inl (key_error_str k) | Some v \<Rightarrow> Inr v)"

text \<open>\<open>d.get(k)\<close> gives \<open>None\<close> for a missing key.\<close>

definition dict_get :: "pydict \<Rightarrow> string \<Rightarrow> pyval" where
  "dict_get d k = (case map_of d k of None \<Rightarrow> PyNone | Some v \<Rightarrow> v)"

section \<open>Data model\<close>

text \<open>
  An earnings entry is the dictionary \<open>{'symbol': ..., 'time': ...}\<close> that
  \<open>get_earnings_for_date\<close> builds (lines 53-56) and that the docstring of
  \<open>filter_stocks\<close> asks for; both keys are always present, so it is a record and the
  subscriptions \<open>ticker_info['symbol']\<close> and \<open>ticker_info['time']\<close> cannot fail.
  The analyzer's output entry (lines 102-107) carries two more fields.
\<close>

record ticker_info =
  symbol :: string
  time :: string

record categorized_info = ticker_info +
  expected_move :: pyval
  recommendation :: string

definition ticker_of :: "categorized_info \<Rightarrow> ticker_info" where
  "ticker_of c = \<lparr>symbol = symbol c, time = time c\<rparr>"

section \<open>Play analyzer (earnings_scanner.py, analyze_earnings_plays)\<close>

text \<open>
  \<open>compute_recommendation\<close> lives outside the repository. It is a parameter: given a
  symbol it either returns a value or raises an exception (a subclass of \<open>Exception\<close>,
  which is what line 116 catches), of which only \<open>str(e)\<close> is kept. It is a function
  of the symbol: asked twice about one symbol during a run, it answers the same.
\<close>

datatype outcome = Returns pyval | Raises string

type_synonym scorer = "string \<Rightarrow> outcome"

text \<open>Lines 99-100: the conditional expression on the three signals.\<close>

definition classify :: "pyval \<Rightarrow> pyval \<Rightarrow> pyval \<Rightarrow> string" where
  "classify avg_volume_bool iv30_rv30_bool ts_slope_bool =
     (if truthy avg_volume_bool \<and> truthy iv30_rv30_bool \<and> truthy ts_slope_bool
      then ''Recommended''
      else if truthy ts_slope_bool \<and>
              ((truthy avg_volume_bool \<and> \<not> truthy iv30_rv30_bool) \<or>
               (truthy iv30_rv30_bool \<and> \<not> truthy avg_volume_bool))
      then ''Consider''
      else ''Avoid'')"

text \<open>
  Lines 93-107, for a result that is a dictionary: the four subscriptions in source
  order, then the new entry. \<open>Inl\<close> is the text of the \<open>KeyError\<close> raised.
\<close>

definition build_entry :: "pydict \<Rightarrow> ticker_info \<Rightarrow> string + categorized_info" where
  "build_entry result t =
     (case getitem result ''avg_volume'' of Inl e \<Rightarrow> Inl e | Inr avg_volume_bool \<Rightarrow>
      case getitem result ''iv30_rv30'' of Inl e \<Rightarrow> Inl e | Inr iv30_rv30_bool \<Rightarrow>
      case getitem result ''ts_slope_0_45'' of Inl e \<Rightarrow> Inl e | Inr ts_slope_bool \<Rightarrow>
      case getitem result ''expected_move'' of Inl e \<Rightarrow> Inl e | Inr em \<Rightarrow>
        Inr \<lparr>symbol = symbol t, time = time t, expected_move = em,
             recommendation = classify avg_volume_bool iv30_rv30_bool ts_slope_bool\<rparr>)"

text \<open>
  Lines 88-107, the body of \<open>try\<close> up to the new entry: \<open>Inl msg\<close> when an exception
  reaches the \<open>except\<close> clause, \<open>Inr None\<close> when the result is not a dictionary and the
  \<open>if\<close> is passed over, \<open>Inr (Some c)\<close> when an entry was built.
\<close>

definition try_block :: "scorer \<Rightarrow> ticker_info \<Rightarrow> string + categorized_info option" where
  "try_block compute_recommendation t =
     (case compute_recommendation (symbol t) of
        Raises msg \<Rightarrow> Inl msg
      | Returns result \<Rightarrow>
          (case result of
             PyDict d \<Rightarrow> (case build_entry d t of Inl e \<Rightarrow> Inl e | Inr c \<Rightarrow> Inr (Some c))
           | _ \<Rightarrow> Inr None))"

text \<open>
  The four accumulators of the loop, and \<open>scored\<close>: the symbols handed to the scorer so
  far, in call order (the effect of line 89 on the outside world). Progress output and
  the one-second sleep are not modelled.
\<close>

record analysis =
  recommended :: "categorized_info list"
  "consider" :: "categorized_info list"
  avoid :: "categorized_info list"
  errors :: "(string \<times> string) list"
  scored :: "string list"

definition analyze_one :: "scorer \<Rightarrow> analysis \<Rightarrow> ticker_info \<Rightarrow> analysis" where
  "analyze_one compute_recommendation st t =
     (let st1 = st\<lparr>scored := scored st @ [symbol t]\<rparr> in
      case try_block compute_recommendation t of
        Inl msg \<Rightarrow> st1\<lparr>errors := errors st1 @ [(symbol t, msg)]\<rparr>
      | Inr None \<Rightarrow> st1
      | Inr (Some c) \<Rightarrow>
          if recommendation c = ''Recommended''
          then st1\<lparr>recommended := recommended st1 @ [c]\<rparr>
          else if recommendation c = ''Consider''
          then st1\<lparr>consider := consider st1 @ [c]\<rparr>
          else st1\<lparr>avoid := avoid st1 @ [c]\<rparr>)"

fun analyze_loop :: "scorer \<Rightarrow> analysis \<Rightarrow> ticker_info list \<Rightarrow> analysis" where
  "analyze_loop compute_recommendation st [] = st"
| "analyze_loop compute_recommendation st (t # ts) =
     analyze_loop compute_recommendation (analyze_one compute_recommendation st t) ts"

definition analyze_earnings_plays :: "scorer \<Rightarrow> ticker_info list \<Rightarrow> analysis" where
  "analyze_earnings_plays compute_recommendation tickers =
     analyze_loop compute_recommendation
       \<lparr>recommended = [], consider = [], avoid = [], errors = [], scored = []\<rparr> tickers"

section \<open>Eligibility filter (utils.py)\<close>

subsection \<open>Reading the allow-list\<close>

text \<open>
  Text is a list of characters below 256. The characters \<open>str.strip()\<close> removes are
  those for which \<open>str.isspace()\<close> holds; below 256 they are the ones listed.
\<close>

definition whitespace_chars :: "char list" where
  "whitespace_chars =
     [CHR 0x09, CHR 0x0A, CHR 0x0B, CHR 0x0C, CHR 0x0D, CHR 0x1C, CHR 0x1D, CHR 0x1E,
      CHR 0x1F, CHR 0x20, CHR 0x85, CHR 0xA0]"

definition isspace :: "char \<Rightarrow> bool" where
  "isspace c = (c \<in> set whitespace_chars)"

definition strip :: "string \<Rightarrow> string" where
  "strip s = rev (dropWhile isspace (rev (dropWhile isspace s)))"

text \<open>
  \<open>open(name, 'r')\<close> reads in universal-newlines mode: \<open>\r\n\<close> and a lone \<open>\r\<close>
  arrive as \<open>\n\<close>.
\<close>

fun universal_newlines :: "string \<Rightarrow> string" where
  "universal_newlines [] = []"
| "universal_newlines [c] = [if c = CHR 0x0D then CHR 0x0A else c]"
| "universal_newlines (c # d # ds) =
     (if c = CHR 0x0D \<and> d = CHR 0x0A then CHR 0x0A # universal_newlines ds
      else (if c = CHR 0x0D then CHR 0x0A else c) # universal_newlines (d # ds))"

text \<open>
  \<open>f.readlines()\<close>: every line keeps its terminator; a last line without one is a line
  too, an empty remainder is not. \<open>cur\<close> is the line being collected.
\<close>

fun split_lines :: "string \<Rightarrow> string \<Rightarrow> string list" where
  "split_lines cur [] = (if cur = [] then [] else [cur])"
| "split_lines cur (c # cs) =
     (if c = CHR 0x0A then (cur @ [c]) # split_lines [] cs else split_lines (cur @ [c]) cs)"

definition readlines :: "string \<Rightarrow> string list" where
  "readlines txt = split_lines [] (universal_newlines txt)"

text \<open>
  The state of \<open>static_stocks.txt\<close> when it is opened, and the exception \<open>open\<close> or
  the read raises when there is no text to return.
\<close>

datatype file_state = Missing | Denied | Undecodable | Text string

datatype io_error = FileNotFoundError | PermissionError | UnicodeDecodeError

definition open_read :: "file_state \<Rightarrow> io_error + string" where
  "open_read f =
     (case f of
        Missing \<Rightarrow> Inl FileNotFoundError
      | Denied \<Rightarrow> Inl PermissionError
      | Undecodable \<Rightarrow> Inl UnicodeDecodeError
      | Text txt \<Rightarrow> Inr txt)"

definition get_static_stocks :: "file_state \<Rightarrow> io_error + string list" where
  "get_static_stocks f =
     (case open_read f of
        Inl e \<Rightarrow> Inl e
      | Inr txt \<Rightarrow> Inr (map strip (readlines txt)))"

subsection \<open>filter_stocks\<close>

text \<open>
  Lines 30-38: the loop over the tickers, with \<open>filtered_tickers\<close> as accumulator.
\<close>

fun filter_loop :: "pydict \<Rightarrow> string list \<Rightarrow> ticker_info list \<Rightarrow> ticker_info list
    \<Rightarrow> ticker_info list" where
  "filter_loop rules static_stocks filtered_tickers [] = filtered_tickers"
| "filter_loop rules static_stocks filtered_tickers (t # ts) =
     (let include_ticker =
            \<not> (truthy (dict_get rules ''use_static_list'') \<and> symbol t \<notin> set static_stocks)
      in filter_loop rules static_stocks
           (if include_ticker then filtered_tickers @ [t] else filtered_tickers) ts)"

text \<open>
  The result is paired with the number of times the allow-list file was opened. An
  exception of \<open>get_static_stocks\<close> is not caught: it is the result.
\<close>

definition filter_stocks ::
    "file_state \<Rightarrow> ticker_info list \<Rightarrow> pydict option \<Rightarrow> (io_error + ticker_info list) \<times> nat" where
  "filter_stocks f tickers rules_arg =
     (let rules = (case rules_arg of None \<Rightarrow> [] | Some r \<Rightarrow> r) in
      if truthy (dict_get rules ''use_static_list'')
      then (case get_static_stocks f of
              Inl e \<Rightarrow> (Inl e, 1)
            | Inr static_stocks \<Rightarrow> (Inr (filter_loop rules static_stocks [] tickers), 1))
      else (Inr (filter_loop rules [] [] tickers), 0))"

section \<open>Calendar resolver (earnings_scanner.py, get_earnings_for_date)\<close>

subsection \<open>Parsing the date\<close>

text \<open>
  \<open>datetime.strptime(date_str, "%Y-%m-%d")\<close>: four digits, a month matching
  \<open>1[0-2]|0[1-9]|[1-9]\<close>, a day matching \<open>3[0-1]|[1-2]\d|0[1-9]|[1-9]| [1-9]\<close>, hyphens
  between them and nothing after; the year is at least 1 and the day exists in the month.
  \<open>None\<close> stands for the \<open>ValueError\<close> raised otherwise.
\<close>

record date =
  year :: nat
  month :: nat
  day :: nat

definition digit_of :: "char \<Rightarrow> nat option" where
  "digit_of c = map_of (zip ''0123456789'' [0, 1, 2, 3, 4, 5, 6, 7, 8, 9]) c"

definition take_year :: "string \<Rightarrow> (nat \<times> string) option" where
  "take_year s =
     (case s of
        a # b # c # d # rest \<Rightarrow>
          (case (digit_of a, digit_of b, digit_of c, digit_of d) of
             (Some x, Some y, Some z, Some w) \<Rightarrow> Some (1000 * x + 100 * y + 10 * z + w, rest)
           | _ \<Rightarrow> None)
      | _ \<Rightarrow> None)"

definition take_hyphen :: "string \<Rightarrow> string option" where
  "take_hyphen s = (case s of c # rest \<Rightarrow> if c = CHR ''-'' then Some rest else None | [] \<Rightarrow> None)"

fun take_month :: "string \<Rightarrow> (nat \<times> string) option" where
  "take_month [] = None"
| "take_month [a] = (if a \<in> set ''123456789'' then map_option (\<lambda>n. (n, [])) (digit_of a) else None)"
| "take_month (a # b # rest) =
     (if a = CHR ''1'' \<and> b \<in> set ''012'' then map_option (\<lambda>n. (10 + n, rest)) (digit_of b)
      else if a = CHR ''0'' \<and> b \<in> set ''123456789'' then map_option (\<lambda>n. (n, rest)) (digit_of b)
      else if a \<in> set ''123456789'' then map_option (\<lambda>n. (n, b # rest)) (digit_of a)
      else None)"

fun take_day :: "string \<Rightarrow> (nat \<times> string) option" where
  "take_day [] = None"
| "take_day [a] = (if a \<in> set ''123456789'' then map_option (\<lambda>n. (n, [])) (digit_of a) else None)"
| "take_day (a # b # rest) =
     (if a = CHR ''3'' \<and> b \<in> set ''01'' then map_option (\<lambda>n. (30 + n, rest)) (digit_of b)
      else if a = CHR ''1'' \<and> b \<in> set ''0123456789''
      then map_option (\<lambda>n. (10 + n, rest)) (digit_of b)
      else if a = CHR ''2'' \<and> b \<in> set ''0123456789''
      then map_option (\<lambda>n. (20 + n, rest)) (digit_of b)
      else if a = CHR ''0'' \<and> b \<in> set ''123456789'' then map_option (\<lambda>n. (n, rest)) (digit_of b)
      else if a \<in> set ''123456789'' then map_option (\<lambda>n. (n, b # rest)) (digit_of a)
      else if a = CHR '' '' \<and> b \<in> set ''123456789'' then map_option (\<lambda>n. (n, rest)) (digit_of b)
      else None)"

definition is_leap :: "nat \<Rightarrow> bool" where
  "is_leap y = (y mod 4 = 0 \<and> (y mod 100 \<noteq> 0 \<or> y mod 400 = 0))"

definition days_in_month :: "nat \<Rightarrow> nat \<Rightarrow> nat" where
  "days_in_month y m =
     (if m = 2 then (if is_leap y then 29 else 28)
      else if m \<in> {4, 6, 9, 11} then 30 else 31)"

definition strptime_ymd :: "string \<Rightarrow> date option" where
  "strptime_ymd s =
     (case take_year s of None \<Rightarrow> None | Some (y, r1) \<Rightarrow>
      case take_hyphen r1 of None \<Rightarrow> None | Some r2 \<Rightarrow>
      case take_month r2 of None \<Rightarrow> None | Some (m, r3) \<Rightarrow>
      case take_hyphen r3 of None \<Rightarrow> None | Some r4 \<Rightarrow>
      case take_day r4 of None \<Rightarrow> None | Some (d, r5) \<Rightarrow>
        if r5 = [] \<and> 1 \<le> y \<and> d \<le> days_in_month y m
        then Some \<lparr>year = y, month = m, day = d\<rparr> else None)"

subsection \<open>Querying the calendar\<close>

text \<open>
  \<open>finance_calendars.get_earnings_by_date\<close> is external: for a date it returns a frame
  indexed by symbol, or raises. A frame has column names and rows of an index label with
  one cell per column; it is \<open>empty\<close> when it has no rows or no columns.
\<close>

record dataframe =
  columns :: "string list"
  rows :: "(string \<times> string list) list"

datatype calendar_outcome = Frame dataframe | CalendarRaises string

type_synonym calendar = "date \<Rightarrow> calendar_outcome"

definition df_empty :: "dataframe \<Rightarrow> bool" where
  "df_empty df = (columns df = [] \<or> rows df = [])"

definition row_get :: "string list \<Rightarrow> string list \<Rightarrow> string \<Rightarrow> string \<Rightarrow> string" where
  "row_get cols cells k dflt = (case map_of (zip cols cells) k of None \<Rightarrow> dflt | Some v \<Rightarrow> v)"

text \<open>Lines 49-56: one entry per row, in row order.\<close>

fun collect_tickers :: "string list \<Rightarrow> ticker_info list \<Rightarrow> (string \<times> string list) list
    \<Rightarrow> ticker_info list" where
  "collect_tickers cols tickers [] = tickers"
| "collect_tickers cols tickers ((symb, cells) # rs) =
     collect_tickers cols
       (tickers @ [\<lparr>symbol = symb, time = row_get cols cells ''time'' ''time-not-supplied''\<rparr>]) rs"

text \<open>
  The result is paired with the dates the calendar source was asked for, in order.
  \<open>today\<close> is what \<open>datetime.date.today()\<close> returns. Messages printed to the user are
  not modelled.
\<close>

definition get_earnings_for_date ::
    "calendar \<Rightarrow> date \<Rightarrow> string option \<Rightarrow> ticker_info list \<times> date list" where
  "get_earnings_for_date get_earnings_by_date today date_str =
     (case (case date_str of None \<Rightarrow> Some today | Some s \<Rightarrow> strptime_ymd s) of
        None \<Rightarrow> ([], [])
      | Some d \<Rightarrow>
          (case get_earnings_by_date d of
             CalendarRaises e \<Rightarrow> ([], [d])
           | Frame earnings_df \<Rightarrow>
               if df_empty earnings_df then ([], [d])
               else (let tickers = collect_tickers (columns earnings_df) [] (rows earnings_df)
                     in if tickers \<noteq> [] then (tickers, [d]) else ([], [d]))))"

section \<open>Notions used to state the properties\<close>

text \<open>
  A well-formed signals record, as the data model describes it: a dictionary in which
  \<open>avg_volume\<close>, \<open>iv30_rv30\<close> and \<open>ts_slope_0_45\<close> are booleans and \<open>expected_move\<close>
  is a string.
\<close>

definition bool_at :: "pydict \<Rightarrow> string \<Rightarrow> bool" where
  "bool_at d k = (case map_of d k of Some (PyBool b) \<Rightarrow> True | _ \<Rightarrow> False)"

definition str_at :: "pydict \<Rightarrow> string \<Rightarrow> bool" where
  "str_at d k = (case map_of d k of Some (PyStr s) \<Rightarrow> True | _ \<Rightarrow> False)"

fun well_formed_signals :: "pyval \<Rightarrow> bool" where
  "well_formed_signals (PyDict d) =
     (bool_at d ''avg_volume'' \<and> bool_at d ''iv30_rv30'' \<and> bool_at d ''ts_slope_0_45'' \<and>
      str_at d ''expected_move'')"
| "well_formed_signals v = False"

fun is_dict :: "pyval \<Rightarrow> bool" where
  "is_dict (PyDict d) = True"
| "is_dict v = False"

fun returned :: "outcome \<Rightarrow> bool" where
  "returned (Returns v) = True"
| "returned (Raises msg) = False"

fun raised :: "outcome \<Rightarrow> bool" where
  "raised (Raises msg) = True"
| "raised (Returns v) = False"

text \<open>A scoring call that returns a well-formed record or raises.\<close>

fun well_formed_or_raises :: "outcome \<Rightarrow> bool" where
  "well_formed_or_raises (Raises msg) = True"
| "well_formed_or_raises (Returns v) = well_formed_signals v"

text \<open>All entries of the three buckets of a run, in bucket order.\<close>

definition classified :: "analysis \<Rightarrow> categorized_info list" where
  "classified r = recommended r @ consider r @ avoid r"

section \<open>Sample inputs\<close>

text \<open>
  A scorer and entries on which the theorems below are instantiated: three well-formed
  records, a result that is not a dictionary, a dictionary with keys missing, and a
  failure for every other symbol.
\<close>

definition sample_scorer :: scorer where
  "sample_scorer s =
     (if s = ''AAPL'' then Returns (PyDict [(''avg_volume'', PyBool True),
          (''iv30_rv30'', PyBool True), (''ts_slope_0_45'', PyBool True),
          (''expected_move'', PyStr ''5.2%'')])
      else if s = ''MSFT'' then Returns (PyDict [(''avg_volume'', PyBool True),
          (''iv30_rv30'', PyBool False), (''ts_slope_0_45'', PyBool True),
          (''expected_move'', PyStr ''3.1%'')])
      else if s = ''TSLA'' then Returns (PyDict [(''avg_volume'', PyBool True),
          (''iv30_rv30'', PyBool True), (''ts_slope_0_45'', PyBool False),
          (''expected_move'', PyStr ''9.0%'')])
      else if s = ''NOPT'' then Returns (PyStr ''No options found.'')
      else if s = ''HALF'' then Returns (PyDict [(''avg_volume'', PyBool True)])
      else Raises ''no data'')"

definition entry :: "string \<Rightarrow> string \<Rightarrow> ticker_info" where
  "entry s tm = \<lparr>symbol = s, time = tm\<rparr>"

text \<open>A calendar source that has two rows for any day in July and fails otherwise.\<close>

definition sample_calendar :: calendar where
  "sample_calendar d =
     (if month d = 7 then
        Frame \<lparr>columns = [''name'', ''time''],
               rows = [(''AAPL'', [''Apple Inc.'', ''time-pre-market'']),
                       (''MSFT'', [''Microsoft'', ''time-after-hours''])]\<rparr>
      else CalendarRaises ''connection refused'')"

definition sample_today :: date where
  "sample_today = \<lparr>year = 2025, month = 7, day = 1\<rparr>"

section \<open>The analyzer accumulates entry by entry\<close>

text \<open>
  Each of the five lists of a run is the concatenation of what the single entries
  contribute, in input order.
\<close>

lemma analyze_single:
  "analyze_earnings_plays sc [t] =
     analyze_one sc \<lparr>recommended = [], consider = [], avoid = [], errors = [], scored = []\<rparr> t"
  by (simp add: analyze_earnings_plays_def)

lemma analyze_one_acc:
  "recommended (analyze_one sc st t) = recommended st @ recommended (analyze_earnings_plays sc [t])"
  "consider (analyze_one sc st t) = consider st @ consider (analyze_earnings_plays sc [t])"
  "avoid (analyze_one sc st t) = avoid st @ avoid (analyze_earnings_plays sc [t])"
  "errors (analyze_one sc st t) = errors st @ errors (analyze_earnings_plays sc [t])"
  "scored (analyze_one sc st t) = scored st @ scored (analyze_earnings_plays sc [t])"
  by (simp_all add: analyze_single analyze_one_def Let_def split: sum.splits option.splits)

lemma analyze_loop_acc:
  "recommended (analyze_loop sc st ts) = recommended st @ recommended (analyze_earnings_plays sc ts)
   \<and> consider (analyze_loop sc st ts) = consider st @ consider (analyze_earnings_plays sc ts)
   \<and> avoid (analyze_loop sc st ts) = avoid st @ avoid (analyze_earnings_plays sc ts)
   \<and> errors (analyze_loop sc st ts) = errors st @ errors (analyze_earnings_plays sc ts)
   \<and> scored (analyze_loop sc st ts) = scored st @ scored (analyze_earnings_plays sc ts)"
proof (induction ts arbitrary: st)
  case Nil
  show ?case by (simp add: analyze_earnings_plays_def)
next
  case (Cons t ts)
  have unfold: "analyze_earnings_plays sc (t # ts) = analyze_loop sc (analyze_earnings_plays sc [t]) ts"
    by (simp add: analyze_earnings_plays_def)
  show ?case
    unfolding unfold analyze_loop.simps
    by (simp only: Cons.IH [of "analyze_one sc st t"] Cons.IH [of "analyze_earnings_plays sc [t]"]
          analyze_one_acc append_assoc simp_thms)
qed

lemma analyze_nil:
  "analyze_earnings_plays sc [] =
     \<lparr>recommended = [], consider = [], avoid = [], errors = [], scored = []\<rparr>"
  by (simp add: analyze_earnings_plays_def)

lemma analyze_append:
  "recommended (analyze_earnings_plays sc (xs @ ys)) =
     recommended (analyze_earnings_plays sc xs) @ recommended (analyze_earnings_plays sc ys)"
  "consider (analyze_earnings_plays sc (xs @ ys)) =
     consider (analyze_earnings_plays sc xs) @ consider (analyze_earnings_plays sc ys)"
  "avoid (analyze_earnings_plays sc (xs @ ys)) =
     avoid (analyze_earnings_plays sc xs) @ avoid (analyze_earnings_plays sc ys)"
  "errors (analyze_earnings_plays sc (xs @ ys)) =
     errors (analyze_earnings_plays sc xs) @ errors (analyze_earnings_plays sc ys)"
  "scored (analyze_earnings_plays sc (xs @ ys)) =
     scored (analyze_earnings_plays sc xs) @ scored (analyze_earnings_plays sc ys)"
proof -
  have split: "analyze_earnings_plays sc (xs @ ys) = analyze_loop sc (analyze_earnings_plays sc xs) ys"
    unfolding analyze_earnings_plays_def
    by (induction xs arbitrary: ys rule: rev_induct) simp_all
  show "recommended (analyze_earnings_plays sc (xs @ ys)) =
     recommended (analyze_earnings_plays sc xs) @ recommended (analyze_earnings_plays sc ys)"
    "consider (analyze_earnings_plays sc (xs @ ys)) =
     consider (analyze_earnings_plays sc xs) @ consider (analyze_earnings_plays sc ys)"
    "avoid (analyze_earnings_plays sc (xs @ ys)) =
     avoid (analyze_earnings_plays sc xs) @ avoid (analyze_earnings_plays sc ys)"
    "errors (analyze_earnings_plays sc (xs @ ys)) =
     errors (analyze_earnings_plays sc xs) @ errors (analyze_earnings_plays sc ys)"
    "scored (analyze_earnings_plays sc (xs @ ys)) =
     scored (analyze_earnings_plays sc xs) @ scored (analyze_earnings_plays sc ys)"
    unfolding split by (simp_all add: analyze_loop_acc)
qed

lemma analyze_cons:
  "recommended (analyze_earnings_plays sc (t # ts)) =
     recommended (analyze_earnings_plays sc [t]) @ recommended (analyze_earnings_plays sc ts)"
  "consider (analyze_earnings_plays sc (t # ts)) =
     consider (analyze_earnings_plays sc [t]) @ consider (analyze_earnings_plays sc ts)"
  "avoid (analyze_earnings_plays sc (t # ts)) =
     avoid (analyze_earnings_plays sc [t]) @ avoid (analyze_earnings_plays sc ts)"
  "errors (analyze_earnings_plays sc (t # ts)) =
     errors (analyze_earnings_plays sc [t]) @ errors (analyze_earnings_plays sc ts)"
  "scored (analyze_earnings_plays sc (t # ts)) =
     scored (analyze_earnings_plays sc [t]) @ scored (analyze_earnings_plays sc ts)"
  using analyze_append [of sc "[t]" ts] by simp_all

subsection \<open>A run over a single entry\<close>

lemma single_raised:
  "try_block sc t = Inl msg \<Longrightarrow>
   analyze_earnings_plays sc [t] =
     \<lparr>recommended = [], consider = [], avoid = [], errors = [(symbol t, msg)], scored = [symbol t]\<rparr>"
  by (simp add: analyze_single analyze_one_def)

lemma single_skipped:
  "try_block sc t = Inr None \<Longrightarrow>
   analyze_earnings_plays sc [t] =
     \<lparr>recommended = [], consider = [], avoid = [], errors = [], scored = [symbol t]\<rparr>"
  by (simp add: analyze_single analyze_one_def)

lemma single_placed:
  "try_block sc t = Inr (Some c) \<Longrightarrow>
   analyze_earnings_plays sc [t] =
     \<lparr>recommended = (if recommendation c = ''Recommended'' then [c] else []),
      consider = (if recommendation c = ''Consider'' then [c] else []),
      avoid = (if recommendation c \<noteq> ''Recommended'' \<and> recommendation c \<noteq> ''Consider'' then [c] else []),
      errors = [], scored = [symbol t]\<rparr>"
  by (simp add: analyze_single analyze_one_def)

lemma classify_bools:
  "classify (PyBool a) (PyBool b) (PyBool c) =
     (if a \<and> b \<and> c then ''Recommended'' else if c \<and> a \<noteq> b then ''Consider'' else ''Avoid'')"
  by (auto simp add: classify_def)

lemma build_entry_ok:
  assumes "map_of d ''avg_volume'' = Some a" "map_of d ''iv30_rv30'' = Some b"
    "map_of d ''ts_slope_0_45'' = Some c" "map_of d ''expected_move'' = Some em"
  shows "build_entry d t = Inr \<lparr>symbol = symbol t, time = time t, expected_move = em,
             recommendation = classify a b c\<rparr>"
  using assms by (simp add: build_entry_def getitem_def)

subsection \<open>What the try block depends on\<close>

lemma build_entry_fields:
  "build_entry d t = Inr c \<Longrightarrow> symbol c = symbol t \<and> time c = time t"
  by (auto simp add: build_entry_def split: sum.splits)

lemma build_entry_label:
  "build_entry d t = Inr c \<Longrightarrow> build_entry d t' = Inr c' \<Longrightarrow> recommendation c = recommendation c'"
  by (auto simp add: build_entry_def split: sum.splits)

lemma build_entry_error:
  "build_entry d t = Inl m \<Longrightarrow> build_entry d t' = Inl m"
  by (auto simp add: build_entry_def split: sum.splits)

lemma try_block_fields:
  "try_block sc t = Inr (Some c) \<Longrightarrow>
     symbol c = symbol t \<and> time c = time t \<and> returned (sc (symbol t))"
  by (auto simp add: try_block_def split: outcome.splits pyval.splits sum.splits
        dest: build_entry_fields)

lemma try_block_label:
  "try_block sc t = Inr (Some c) \<Longrightarrow> try_block sc t' = Inr (Some c') \<Longrightarrow>
     symbol t = symbol t' \<Longrightarrow> recommendation c = recommendation c'"
  by (auto simp add: try_block_def split: outcome.splits pyval.splits sum.splits
        dest: build_entry_label)

lemma try_block_error:
  assumes "try_block sc t = Inl m" and "symbol t' = symbol t"
  shows "try_block sc t' = Inl m"
proof (cases "sc (symbol t)")
  case (Raises msg)
  with assms show ?thesis by (simp add: try_block_def)
next
  case (Returns v)
  show ?thesis
  proof (cases v)
    case (PyDict d)
    with Returns assms(1) have "build_entry d t = Inl m"
      by (simp add: try_block_def split: sum.splits)
    then have "build_entry d t' = Inl m" by (rule build_entry_error)
    with Returns PyDict assms(2) show ?thesis by (simp add: try_block_def)
  qed (use Returns assms in \<open>simp_all add: try_block_def\<close>)
qed

lemma try_block_cases:
  obtains (raised) m where "try_block sc t = Inl m"
  | (skipped) "try_block sc t = Inr None"
  | (placed) c where "try_block sc t = Inr (Some c)"
  by (cases "try_block sc t") (auto intro: option.exhaust)

lemma try_block_raises:
  "sc (symbol t) = Raises msg \<Longrightarrow> try_block sc t = Inl msg"
  by (simp add: try_block_def)

lemma well_formed_built:
  "well_formed_signals (PyDict d) \<Longrightarrow> \<exists>c. build_entry d t = Inr c"
  by (auto simp add: bool_at_def str_at_def build_entry_def getitem_def split: option.splits pyval.splits)

lemma try_block_well_formed:
  assumes "sc (symbol t) = Returns v" and "well_formed_signals v"
  shows "\<exists>c. try_block sc t = Inr (Some c)"
proof (cases v)
  case (PyDict d)
  with assms(2) obtain c where "build_entry d t = Inr c"
    using well_formed_built [of d t] by blast
  with assms(1) PyDict show ?thesis by (simp add: try_block_def)
qed (use assms in simp_all)

lemma recommended_origin:
  "c \<in> set (recommended (analyze_earnings_plays sc ts)) \<Longrightarrow>
     \<exists>t\<in>set ts. try_block sc t = Inr (Some c) \<and> recommendation c = ''Recommended''"
proof (induction ts)
  case Nil
  then show ?case by (simp add: analyze_nil)
next
  case (Cons t ts)
  then show ?case
    by (cases sc t rule: try_block_cases)
      (auto simp add: analyze_cons [of sc t ts] single_raised single_skipped single_placed
         split: if_splits)
qed

lemma consider_origin:
  "c \<in> set (consider (analyze_earnings_plays sc ts)) \<Longrightarrow>
     \<exists>t\<in>set ts. try_block sc t = Inr (Some c) \<and> recommendation c = ''Consider''"
proof (induction ts)
  case Nil
  then show ?case by (simp add: analyze_nil)
next
  case (Cons t ts)
  then show ?case
    by (cases sc t rule: try_block_cases)
      (auto simp add: analyze_cons [of sc t ts] single_raised single_skipped single_placed
         split: if_splits)
qed

lemma avoid_origin:
  "c \<in> set (avoid (analyze_earnings_plays sc ts)) \<Longrightarrow>
     \<exists>t\<in>set ts. try_block sc t = Inr (Some c) \<and>
        recommendation c \<noteq> ''Recommended'' \<and> recommendation c \<noteq> ''Consider''"
proof (induction ts)
  case Nil
  then show ?case by (simp add: analyze_nil)
next
  case (Cons t ts)
  then show ?case
    by (cases sc t rule: try_block_cases)
      (auto simp add: analyze_cons [of sc t ts] single_raised single_skipped single_placed
         split: if_splits)
qed

lemma errors_origin:
  "e \<in> set (errors (analyze_earnings_plays sc ts)) \<Longrightarrow>
     \<exists>t\<in>set ts. symbol t = fst e \<and> try_block sc t = Inl (snd e)"
proof (induction ts)
  case Nil
  then show ?case by (simp add: analyze_nil)
next
  case (Cons t ts)
  then show ?case
    by (cases sc t rule: try_block_cases)
      (auto simp add: analyze_cons [of sc t ts] single_raised single_skipped single_placed
         split: if_splits)
qed

section \<open>Classification\<close>

text \<open>
  C1. In any batch, an entry whose scoring returns a record with boolean signals
  \<open>avg_volume\<close>, \<open>iv30_rv30\<close>, \<open>ts_slope_0_45\<close> is appended to \<open>recommended\<close>
  exactly when all three are true, to \<open>consider\<close> exactly when \<open>ts_slope_0_45\<close> is
  true and exactly one of the other two is, and to \<open>avoid\<close> in every other case; it
  adds nothing to \<open>errors\<close>. The bucket depends on nothing but the three booleans.
\<close>

theorem classification_by_signals:
  assumes "sc (symbol t) = Returns (PyDict d)"
    and "map_of d ''avg_volume'' = Some (PyBool avg_volume)"
    and "map_of d ''iv30_rv30'' = Some (PyBool iv30_rv30)"
    and "map_of d ''ts_slope_0_45'' = Some (PyBool ts_slope_0_45)"
    and "map_of d ''expected_move'' = Some em"
  shows "recommended (analyze_earnings_plays sc (before @ t # after)) =
           recommended (analyze_earnings_plays sc before) @
           (if avg_volume \<and> iv30_rv30 \<and> ts_slope_0_45
            then [\<lparr>symbol = symbol t, time = time t, expected_move = em,
                   recommendation = ''Recommended''\<rparr>] else []) @
           recommended (analyze_earnings_plays sc after)
       \<and> consider (analyze_earnings_plays sc (before @ t # after)) =
           consider (analyze_earnings_plays sc before) @
           (if ts_slope_0_45 \<and> avg_volume \<noteq> iv30_rv30
            then [\<lparr>symbol = symbol t, time = time t, expected_move = em,
                   recommendation = ''Consider''\<rparr>] else []) @
           consider (analyze_earnings_plays sc after)
       \<and> avoid (analyze_earnings_plays sc (before @ t # after)) =
           avoid (analyze_earnings_plays sc before) @
           (if \<not> (avg_volume \<and> iv30_rv30 \<and> ts_slope_0_45) \<and>
               \<not> (ts_slope_0_45 \<and> avg_volume \<noteq> iv30_rv30)
            then [\<lparr>symbol = symbol t, time = time t, expected_move = em,
                   recommendation = ''Avoid''\<rparr>] else []) @
           avoid (analyze_earnings_plays sc after)
       \<and> errors (analyze_earnings_plays sc (before @ t # after)) =
           errors (analyze_earnings_plays sc before) @ errors (analyze_earnings_plays sc after)"
proof -
  let ?c = "\<lparr>symbol = symbol t, time = time t, expected_move = em,
      recommendation = classify (PyBool avg_volume) (PyBool iv30_rv30) (PyBool ts_slope_0_45)\<rparr>"
  have "build_entry d t = Inr ?c"
    using assms(2-5) by (rule build_entry_ok)
  with assms(1) have tb: "try_block sc t = Inr (Some ?c)"
    by (simp add: try_block_def)
  have single: "analyze_earnings_plays sc [t] =
     \<lparr>recommended = (if recommendation ?c = ''Recommended'' then [?c] else []),
      consider = (if recommendation ?c = ''Consider'' then [?c] else []),
      avoid = (if recommendation ?c \<noteq> ''Recommended'' \<and> recommendation ?c \<noteq> ''Consider''
               then [?c] else []),
      errors = [], scored = [symbol t]\<rparr>"
    using tb by (rule single_placed)
  have split: "before @ t # after = before @ [t] @ after" by simp
  show ?thesis
    unfolding split analyze_append single
    by (simp add: classify_bools)
qed

lemmas run_defs =
  analyze_earnings_plays_def analyze_one_def try_block_def build_entry_def
  getitem_def key_error_str_def classify_def sample_scorer_def entry_def Let_def

theorem classification_by_signals_witness:
  "sample_scorer (symbol (entry ''MSFT'' ''amc'')) =
     Returns (PyDict [(''avg_volume'', PyBool True), (''iv30_rv30'', PyBool False),
        (''ts_slope_0_45'', PyBool True), (''expected_move'', PyStr ''3.1%'')])
   \<and> recommended (analyze_earnings_plays sample_scorer
        [entry ''AAPL'' ''bmo'', entry ''MSFT'' ''amc'', entry ''TSLA'' ''amc'']) =
       [\<lparr>symbol = ''AAPL'', time = ''bmo'', expected_move = PyStr ''5.2%'',
         recommendation = ''Recommended''\<rparr>]
   \<and> consider (analyze_earnings_plays sample_scorer
        [entry ''AAPL'' ''bmo'', entry ''MSFT'' ''amc'', entry ''TSLA'' ''amc'']) =
       [\<lparr>symbol = ''MSFT'', time = ''amc'', expected_move = PyStr ''3.1%'',
         recommendation = ''Consider''\<rparr>]
   \<and> avoid (analyze_earnings_plays sample_scorer
        [entry ''AAPL'' ''bmo'', entry ''MSFT'' ''amc'', entry ''TSLA'' ''amc'']) =
       [\<lparr>symbol = ''TSLA'', time = ''amc'', expected_move = PyStr ''9.0%'',
         recommendation = ''Avoid''\<rparr>]"
  using classification_by_signals [of sample_scorer "entry ''MSFT'' ''amc''"
      "[(''avg_volume'', PyBool True), (''iv30_rv30'', PyBool False),
        (''ts_slope_0_45'', PyBool True), (''expected_move'', PyStr ''3.1%'')]"
      True False True "PyStr ''3.1%''" "[entry ''AAPL'' ''bmo'']" "[entry ''TSLA'' ''amc'']"]
  by (simp add: run_defs)

section \<open>The run partitions the batch\<close>

lemma single_count:
  assumes "well_formed_or_raises (sc (symbol t))"
  shows "length (recommended (analyze_earnings_plays sc [t])) +
         length (consider (analyze_earnings_plays sc [t])) +
         length (avoid (analyze_earnings_plays sc [t])) +
         length (errors (analyze_earnings_plays sc [t])) = 1"
proof (cases "sc (symbol t)")
  case (Raises msg)
  then have "try_block sc t = Inl msg" by (rule try_block_raises)
  then show ?thesis by (simp add: single_raised)
next
  case (Returns v)
  with assms obtain c where "try_block sc t = Inr (Some c)"
    using try_block_well_formed [of sc t v] by auto
  then show ?thesis by (simp add: single_placed)
qed

lemma single_classified:
  assumes "well_formed_or_raises (sc (symbol t))"
  shows "map ticker_of (classified (analyze_earnings_plays sc [t])) =
           (if returned (sc (symbol t)) then [t] else [])"
proof (cases "sc (symbol t)")
  case (Raises msg)
  then have "try_block sc t = Inl msg" by (rule try_block_raises)
  with Raises show ?thesis by (simp add: single_raised classified_def)
next
  case (Returns v)
  with assms obtain c where c: "try_block sc t = Inr (Some c)"
    using try_block_well_formed [of sc t v] by auto
  then have "ticker_of c = t"
    using try_block_fields [of sc t c] by (simp add: ticker_of_def)
  with c Returns show ?thesis by (simp add: single_placed classified_def)
qed

lemma single_errors:
  assumes "well_formed_or_raises (sc (symbol t))"
  shows "map fst (errors (analyze_earnings_plays sc [t])) =
           (if raised (sc (symbol t)) then [symbol t] else [])"
proof (cases "sc (symbol t)")
  case (Raises msg)
  then have "try_block sc t = Inl msg" by (rule try_block_raises)
  with Raises show ?thesis by (simp add: single_raised)
next
  case (Returns v)
  with assms obtain c where c: "try_block sc t = Inr (Some c)"
    using try_block_well_formed [of sc t v] by auto
  with Returns show ?thesis by (simp add: single_placed)
qed

lemma batch_count:
  "\<forall>t\<in>set ts. well_formed_or_raises (sc (symbol t)) \<Longrightarrow>
   length (recommended (analyze_earnings_plays sc ts)) +
   length (consider (analyze_earnings_plays sc ts)) +
   length (avoid (analyze_earnings_plays sc ts)) +
   length (errors (analyze_earnings_plays sc ts)) = length ts"
proof (induction ts)
  case Nil
  show ?case by (simp add: analyze_nil)
next
  case (Cons t ts)
  from Cons.prems have "well_formed_or_raises (sc (symbol t))" by simp
  then have one: "length (recommended (analyze_earnings_plays sc [t])) +
         length (consider (analyze_earnings_plays sc [t])) +
         length (avoid (analyze_earnings_plays sc [t])) +
         length (errors (analyze_earnings_plays sc [t])) = 1"
    by (rule single_count)
  from Cons have rest: "length (recommended (analyze_earnings_plays sc ts)) +
   length (consider (analyze_earnings_plays sc ts)) +
   length (avoid (analyze_earnings_plays sc ts)) +
   length (errors (analyze_earnings_plays sc ts)) = length ts" by simp
  show ?case
    using one rest by (simp add: analyze_cons [of sc t ts])
qed

lemma batch_classified:
  "\<forall>t\<in>set ts. well_formed_or_raises (sc (symbol t)) \<Longrightarrow>
   mset (map ticker_of (classified (analyze_earnings_plays sc ts))) =
   mset (filter (\<lambda>t. returned (sc (symbol t))) ts)"
proof (induction ts)
  case Nil
  show ?case by (simp add: analyze_nil classified_def)
next
  case (Cons t ts)
  from Cons.prems have "well_formed_or_raises (sc (symbol t))" by simp
  then have one: "map ticker_of (classified (analyze_earnings_plays sc [t])) =
           (if returned (sc (symbol t)) then [t] else [])"
    by (rule single_classified)
  have "mset (map ticker_of (classified (analyze_earnings_plays sc (t # ts)))) =
        mset (map ticker_of (classified (analyze_earnings_plays sc [t]))) +
        mset (map ticker_of (classified (analyze_earnings_plays sc ts)))"
    by (simp add: classified_def analyze_cons [of sc t ts])
  also have "\<dots> = mset (filter (\<lambda>t. returned (sc (symbol t))) (t # ts))"
    using Cons one by simp
  finally show ?case .
qed

lemma batch_errors:
  "\<forall>t\<in>set ts. well_formed_or_raises (sc (symbol t)) \<Longrightarrow>
   map fst (errors (analyze_earnings_plays sc ts)) =
   map symbol (filter (\<lambda>t. raised (sc (symbol t))) ts)"
proof (induction ts)
  case Nil
  show ?case by (simp add: analyze_nil)
next
  case (Cons t ts)
  from Cons.prems have "well_formed_or_raises (sc (symbol t))" by simp
  then have "map fst (errors (analyze_earnings_plays sc [t])) =
           (if raised (sc (symbol t)) then [symbol t] else [])"
    by (rule single_errors)
  with Cons show ?case by (simp add: analyze_cons [of sc t ts])
qed

lemma recommended_consider_disjoint:
  "symbol ` set (recommended (analyze_earnings_plays sc ts)) \<inter>
   symbol ` set (consider (analyze_earnings_plays sc ts)) = {}"
proof (rule ccontr)
  assume "\<not> ?thesis"
  then obtain a b where a: "a \<in> set (recommended (analyze_earnings_plays sc ts))"
    and b: "b \<in> set (consider (analyze_earnings_plays sc ts))" and ab: "symbol a = symbol b"
    by auto
  from a obtain t where t: "try_block sc t = Inr (Some a)" "recommendation a = ''Recommended''"
    using recommended_origin by blast
  from b obtain u where u: "try_block sc u = Inr (Some b)" "recommendation b = ''Consider''"
    using consider_origin by blast
  have "symbol t = symbol u"
    using try_block_fields [OF t(1)] try_block_fields [OF u(1)] ab by simp
  then have "recommendation a = recommendation b"
    using try_block_label [OF t(1) u(1)] by simp
  with t(2) u(2) show False by simp
qed

lemma recommended_avoid_disjoint:
  "symbol ` set (recommended (analyze_earnings_plays sc ts)) \<inter>
   symbol ` set (avoid (analyze_earnings_plays sc ts)) = {}"
proof (rule ccontr)
  assume "\<not> ?thesis"
  then obtain a b where a: "a \<in> set (recommended (analyze_earnings_plays sc ts))"
    and b: "b \<in> set (avoid (analyze_earnings_plays sc ts))" and ab: "symbol a = symbol b"
    by auto
  from a obtain t where t: "try_block sc t = Inr (Some a)" "recommendation a = ''Recommended''"
    using recommended_origin by blast
  from b obtain u where u: "try_block sc u = Inr (Some b)" "recommendation b \<noteq> ''Recommended''"
    using avoid_origin by blast
  have "symbol t = symbol u"
    using try_block_fields [OF t(1)] try_block_fields [OF u(1)] ab by simp
  then have "recommendation a = recommendation b"
    using try_block_label [OF t(1) u(1)] by simp
  with t(2) u(2) show False by simp
qed

lemma consider_avoid_disjoint:
  "symbol ` set (consider (analyze_earnings_plays sc ts)) \<inter>
   symbol ` set (avoid (analyze_earnings_plays sc ts)) = {}"
proof (rule ccontr)
  assume "\<not> ?thesis"
  then obtain a b where a: "a \<in> set (consider (analyze_earnings_plays sc ts))"
    and b: "b \<in> set (avoid (analyze_earnings_plays sc ts))" and ab: "symbol a = symbol b"
    by auto
  from a obtain t where t: "try_block sc t = Inr (Some a)" "recommendation a = ''Consider''"
    using consider_origin by blast
  from b obtain u where u: "try_block sc u = Inr (Some b)" "recommendation b \<noteq> ''Consider''"
    using avoid_origin by blast
  have "symbol t = symbol u"
    using try_block_fields [OF t(1)] try_block_fields [OF u(1)] ab by simp
  then have "recommendation a = recommendation b"
    using try_block_label [OF t(1) u(1)] by simp
  with t(2) u(2) show False by simp
qed

lemma classified_origin:
  "c \<in> set (classified (analyze_earnings_plays sc ts)) \<Longrightarrow>
     \<exists>t\<in>set ts. try_block sc t = Inr (Some c)"
  unfolding classified_def
  using recommended_origin [of c sc ts] consider_origin [of c sc ts] avoid_origin [of c sc ts]
  by auto

lemma errors_classified_disjoint:
  "fst ` set (errors (analyze_earnings_plays sc ts)) \<inter>
   symbol ` set (classified (analyze_earnings_plays sc ts)) = {}"
proof (rule ccontr)
  assume "\<not> ?thesis"
  then obtain e c where e: "e \<in> set (errors (analyze_earnings_plays sc ts))"
    and c: "c \<in> set (classified (analyze_earnings_plays sc ts))" and ec: "fst e = symbol c"
    by auto
  from e obtain t where t: "symbol t = fst e" "try_block sc t = Inl (snd e)"
    using errors_origin by blast
  from c obtain u where u: "try_block sc u = Inr (Some c)"
    using classified_origin by blast
  have "symbol u = symbol t"
    using try_block_fields [OF u] t(1) ec by simp
  then have "try_block sc u = Inl (snd e)"
    using try_block_error [OF t(2)] by simp
  with u show False by simp
qed

text \<open>
  C2. If every scoring call of a batch returns a well-formed signals record or raises,
  the four lists partition the batch: their lengths add up to the length of the input;
  the entries of the three buckets are, counted with multiplicity, exactly the entries
  whose scoring returned; the symbols in \<open>errors\<close> are exactly those of the entries
  whose scoring raised, in input order; no symbol occurs in two buckets, nor in
  \<open>errors\<close> and a bucket.
\<close>

theorem analyze_partitions_batch:
  assumes "\<forall>t\<in>set tickers. well_formed_or_raises (sc (symbol t))"
  shows "length (recommended (analyze_earnings_plays sc tickers)) +
         length (consider (analyze_earnings_plays sc tickers)) +
         length (avoid (analyze_earnings_plays sc tickers)) +
         length (errors (analyze_earnings_plays sc tickers)) = length tickers
     \<and> mset (map ticker_of (classified (analyze_earnings_plays sc tickers))) =
         mset (filter (\<lambda>t. returned (sc (symbol t))) tickers)
     \<and> map fst (errors (analyze_earnings_plays sc tickers)) =
         map symbol (filter (\<lambda>t. raised (sc (symbol t))) tickers)
     \<and> symbol ` set (recommended (analyze_earnings_plays sc tickers)) \<inter>
         symbol ` set (consider (analyze_earnings_plays sc tickers)) = {}
     \<and> symbol ` set (recommended (analyze_earnings_plays sc tickers)) \<inter>
         symbol ` set (avoid (analyze_earnings_plays sc tickers)) = {}
     \<and> symbol ` set (consider (analyze_earnings_plays sc tickers)) \<inter>
         symbol ` set (avoid (analyze_earnings_plays sc tickers)) = {}
     \<and> fst ` set (errors (analyze_earnings_plays sc tickers)) \<inter>
         symbol ` set (classified (analyze_earnings_plays sc tickers)) = {}"
  using batch_count [OF assms] batch_classified [OF assms] batch_errors [OF assms]
    recommended_consider_disjoint [of sc tickers] recommended_avoid_disjoint [of sc tickers]
    consider_avoid_disjoint [of sc tickers] errors_classified_disjoint [of sc tickers]
  by (intro conjI)

theorem analyze_partitions_batch_witness:
  "well_formed_or_raises (sample_scorer ''AAPL'')
   \<and> well_formed_or_raises (sample_scorer ''QQQQ'')
   \<and> well_formed_or_raises (sample_scorer ''MSFT'')
   \<and> well_formed_or_raises (sample_scorer ''TSLA'')
   \<and> map ticker_of (recommended (analyze_earnings_plays sample_scorer
        [entry ''AAPL'' ''bmo'', entry ''QQQQ'' ''amc'', entry ''MSFT'' ''amc'',
         entry ''TSLA'' ''amc'', entry ''AAPL'' ''amc''])) =
       [entry ''AAPL'' ''bmo'', entry ''AAPL'' ''amc'']
   \<and> map ticker_of (consider (analyze_earnings_plays sample_scorer
        [entry ''AAPL'' ''bmo'', entry ''QQQQ'' ''amc'', entry ''MSFT'' ''amc'',
         entry ''TSLA'' ''amc'', entry ''AAPL'' ''amc''])) = [entry ''MSFT'' ''amc'']
   \<and> map ticker_of (avoid (analyze_earnings_plays sample_scorer
        [entry ''AAPL'' ''bmo'', entry ''QQQQ'' ''amc'', entry ''MSFT'' ''amc'',
         entry ''TSLA'' ''amc'', entry ''AAPL'' ''amc''])) = [entry ''TSLA'' ''amc'']
   \<and> errors (analyze_earnings_plays sample_scorer
        [entry ''AAPL'' ''bmo'', entry ''QQQQ'' ''amc'', entry ''MSFT'' ''amc'',
         entry ''TSLA'' ''amc'', entry ''AAPL'' ''amc'']) = [(''QQQQ'', ''no data'')]"
  using analyze_partitions_batch [of "[entry ''AAPL'' ''bmo'', entry ''QQQQ'' ''amc'',
      entry ''MSFT'' ''amc'', entry ''TSLA'' ''amc'', entry ''AAPL'' ''amc'']" sample_scorer]
  by (simp add: run_defs ticker_of_def bool_at_def str_at_def)

section \<open>Fault isolation\<close>

text \<open>
  C4. If the scoring call for an entry \<open>x\<close> raises with message \<open>msg\<close>, the run
  over a batch containing \<open>x\<close> has the error list of the batch without \<open>x\<close> with
  the one pair \<open>(symbol x, msg)\<close> inserted at the place of \<open>x\<close>, and its three
  buckets are those of the batch without \<open>x\<close>: the entries after \<open>x\<close> are still
  processed and no other entry changes bucket.
\<close>

theorem failure_is_isolated:
  assumes "sc (symbol x) = Raises msg"
  shows "errors (analyze_earnings_plays sc (before @ x # after)) =
           errors (analyze_earnings_plays sc before) @ (symbol x, msg) #
           errors (analyze_earnings_plays sc after)
     \<and> errors (analyze_earnings_plays sc (before @ after)) =
           errors (analyze_earnings_plays sc before) @ errors (analyze_earnings_plays sc after)
     \<and> recommended (analyze_earnings_plays sc (before @ x # after)) =
           recommended (analyze_earnings_plays sc (before @ after))
     \<and> consider (analyze_earnings_plays sc (before @ x # after)) =
           consider (analyze_earnings_plays sc (before @ after))
     \<and> avoid (analyze_earnings_plays sc (before @ x # after)) =
           avoid (analyze_earnings_plays sc (before @ after))"
proof -
  have "try_block sc x = Inl msg"
    using assms by (rule try_block_raises)
  then have single: "analyze_earnings_plays sc [x] =
     \<lparr>recommended = [], consider = [], avoid = [], errors = [(symbol x, msg)],
      scored = [symbol x]\<rparr>"
    by (rule single_raised)
  have split: "before @ x # after = before @ [x] @ after" by simp
  show ?thesis
    unfolding split analyze_append single by simp
qed

theorem failure_is_isolated_witness:
  "sample_scorer (symbol (entry ''QQQQ'' ''amc'')) = Raises ''no data''
   \<and> errors (analyze_earnings_plays sample_scorer
        [entry ''AAPL'' ''bmo'', entry ''QQQQ'' ''amc'', entry ''MSFT'' ''amc'']) =
       [(''QQQQ'', ''no data'')]
   \<and> errors (analyze_earnings_plays sample_scorer
        [entry ''AAPL'' ''bmo'', entry ''MSFT'' ''amc'']) = []
   \<and> map symbol (recommended (analyze_earnings_plays sample_scorer
        [entry ''AAPL'' ''bmo'', entry ''QQQQ'' ''amc'', entry ''MSFT'' ''amc''])) = [''AAPL'']
   \<and> map symbol (consider (analyze_earnings_plays sample_scorer
        [entry ''AAPL'' ''bmo'', entry ''QQQQ'' ''amc'', entry ''MSFT'' ''amc''])) = [''MSFT'']"
  using failure_is_isolated [of sample_scorer "entry ''QQQQ'' ''amc''" "''no data''"
      "[entry ''AAPL'' ''bmo'']" "[entry ''MSFT'' ''amc'']"]
  by (simp add: run_defs)

section \<open>Calls to the scorer\<close>

lemma scored_single: "scored (analyze_earnings_plays sc [t]) = [symbol t]"
  by (simp add: analyze_single analyze_one_def Let_def split: sum.splits option.splits)

text \<open>
  C5, as the code has it. The scorer is called once per entry of the batch, in input
  order: the symbols passed to it are the symbols of the entries. No symbol is passed
  twice exactly when the batch has no two entries with the same symbol.
\<close>

theorem scorer_called_once_per_entry:
  "scored (analyze_earnings_plays sc tickers) = map symbol tickers
   \<and> (distinct (scored (analyze_earnings_plays sc tickers)) = distinct (map symbol tickers))"
proof -
  have "scored (analyze_earnings_plays sc tickers) = map symbol tickers"
  proof (induction tickers)
    case Nil
    show ?case by (simp add: analyze_nil)
  next
    case (Cons t ts)
    then show ?case by (simp add: analyze_cons [of sc t ts] scored_single)
  qed
  then show ?thesis by simp
qed

text \<open>
  C5, as stated, fails: a batch with two entries for \<open>AAPL\<close> passes \<open>AAPL\<close> to
  the scorer twice.
\<close>

theorem duplicate_symbol_scored_twice:
  "scored (analyze_earnings_plays sample_scorer
       [entry ''AAPL'' ''bmo'', entry ''AAPL'' ''amc'']) = [''AAPL'', ''AAPL'']
   \<and> \<not> distinct (scored (analyze_earnings_plays sample_scorer
       [entry ''AAPL'' ''bmo'', entry ''AAPL'' ''amc'']))"
  by (simp add: run_defs)

section \<open>Results that are not signals records\<close>

text \<open>
  C6, as the code has it. A scoring call that returns a value which is not a
  dictionary is passed over: the entry adds nothing to the three buckets nor to
  \<open>errors\<close>, in any batch; only the call itself is recorded.
\<close>

theorem non_dict_result_is_skipped:
  assumes "sc (symbol x) = Returns v" and "\<not> is_dict v"
  shows "recommended (analyze_earnings_plays sc (before @ x # after)) =
           recommended (analyze_earnings_plays sc (before @ after))
     \<and> consider (analyze_earnings_plays sc (before @ x # after)) =
           consider (analyze_earnings_plays sc (before @ after))
     \<and> avoid (analyze_earnings_plays sc (before @ x # after)) =
           avoid (analyze_earnings_plays sc (before @ after))
     \<and> errors (analyze_earnings_plays sc (before @ x # after)) =
           errors (analyze_earnings_plays sc (before @ after))
     \<and> analyze_earnings_plays sc [x] =
           \<lparr>recommended = [], consider = [], avoid = [], errors = [], scored = [symbol x]\<rparr>"
proof -
  have "try_block sc x = Inr None"
    using assms by (cases v) (simp_all add: try_block_def)
  then have single: "analyze_earnings_plays sc [x] =
     \<lparr>recommended = [], consider = [], avoid = [], errors = [], scored = [symbol x]\<rparr>"
    by (rule single_skipped)
  have split: "before @ x # after = before @ [x] @ after" by simp
  show ?thesis
    unfolding split analyze_append single by simp
qed

theorem non_dict_result_is_skipped_witness:
  "sample_scorer (symbol (entry ''NOPT'' ''amc'')) = Returns (PyStr ''No options found.'')
   \<and> \<not> is_dict (PyStr ''No options found.'')
   \<and> analyze_earnings_plays sample_scorer [entry ''NOPT'' ''amc''] =
       \<lparr>recommended = [], consider = [], avoid = [], errors = [], scored = [''NOPT'']\<rparr>
   \<and> errors (analyze_earnings_plays sample_scorer
        [entry ''QQQQ'' ''bmo'', entry ''NOPT'' ''amc'']) = [(''QQQQ'', ''no data'')]"
  using non_dict_result_is_skipped [of sample_scorer "entry ''NOPT'' ''amc''"
      "PyStr ''No options found.''" "[entry ''QQQQ'' ''bmo'']" "[]"]
  by (simp add: run_defs)

text \<open>
  C6, as stated, fails for a dictionary that is not a well-formed record: with the key
  \<open>iv30_rv30\<close> missing, the \<open>KeyError\<close> is caught and the entry is added to
  \<open>errors\<close>.
\<close>

theorem incomplete_record_is_reported:
  "sample_scorer ''HALF'' = Returns (PyDict [(''avg_volume'', PyBool True)])
   \<and> \<not> well_formed_signals (PyDict [(''avg_volume'', PyBool True)])
   \<and> errors (analyze_earnings_plays sample_scorer [entry ''HALF'' ''amc'']) =
       [(''HALF'', [CHR 0x27] @ ''iv30_rv30'' @ [CHR 0x27])]"
  by (simp add: run_defs bool_at_def str_at_def)

section \<open>Eligibility filter\<close>

subsection \<open>The loop is a filter\<close>

lemma filter_loop_eq:
  "filter_loop rules static_stocks acc ts =
     acc @ filter (\<lambda>t. \<not> (truthy (dict_get rules ''use_static_list'') \<and>
                            symbol t \<notin> set static_stocks)) ts"
  by (induction ts arbitrary: acc) (simp_all add: Let_def)

subsection \<open>Stripping and splitting into lines\<close>

lemma dropWhile_all: "\<forall>c\<in>set p. P c \<Longrightarrow> dropWhile P (p @ s) = dropWhile P s"
  by (induction p) simp_all

lemma dropWhile_none: "\<forall>c\<in>set p. P c \<Longrightarrow> dropWhile P p = []"
  by (induction p) simp_all

lemma dropWhile_clean: "s \<noteq> [] \<Longrightarrow> \<not> P (hd s) \<Longrightarrow> dropWhile P s = s"
  by (cases s) simp_all

lemma strip_padded:
  assumes p: "\<forall>c\<in>set p. isspace c" and q: "\<forall>c\<in>set q. isspace c"
    and s: "s = [] \<or> (\<not> isspace (hd s) \<and> \<not> isspace (last s))"
  shows "strip (p @ s @ q) = s"
proof (cases "s = []")
  case True
  have "dropWhile isspace (p @ s @ q) = dropWhile isspace (s @ q)"
    using p by (rule dropWhile_all)
  also have "\<dots> = dropWhile isspace q"
    using True by (simp only: append_Nil)
  also have "\<dots> = []"
    using q by (rule dropWhile_none)
  finally have "dropWhile isspace (p @ s @ q) = []" .
  then show ?thesis
    using True by (simp only: strip_def rev.simps dropWhile.simps)
next
  case False
  with s have hd: "\<not> isspace (hd s)" and lst: "\<not> isspace (last s)" by simp_all
  have "dropWhile isspace (p @ s @ q) = dropWhile isspace (s @ q)"
    using p by (rule dropWhile_all)
  also have "\<dots> = s @ q"
    using False hd by (intro dropWhile_clean) simp_all
  finally have front: "dropWhile isspace (p @ s @ q) = s @ q" .
  have "dropWhile isspace (rev q @ rev s) = dropWhile isspace (rev s)"
    using q by (intro dropWhile_all) simp
  also have "\<dots> = rev s"
    using False lst by (intro dropWhile_clean) (simp_all add: hd_rev)
  finally show ?thesis
    by (simp add: strip_def front)
qed

lemma strip_edges:
  "strip s = [] \<or> (\<not> isspace (hd (strip s)) \<and> \<not> isspace (last (strip s)))"
proof (cases "strip s = []")
  case False
  let ?a = "dropWhile isspace s"
  let ?b = "dropWhile isspace (rev ?a)"
  from False have b: "?b \<noteq> []" by (simp add: strip_def)
  have "?a = [] \<Longrightarrow> ?b = []" by (simp only: rev.simps dropWhile.simps)
  with b have a: "?a \<noteq> []" by blast
  have "\<not> isspace (hd ?b)" using b by (rule hd_dropWhile)
  then have last: "\<not> isspace (last (strip s))"
    using b by (simp add: strip_def last_rev)
  have "\<not> isspace (hd ?a)" using a by (rule hd_dropWhile)
  then have "\<not> isspace (last (rev ?a))" using a by (simp add: last_rev)
  moreover have "last ?b = last (rev ?a)"
    using b by (metis append_is_Nil_conv last_appendR takeWhile_dropWhile_id)
  ultimately have "\<not> isspace (hd (strip s))"
    using b by (simp add: strip_def hd_rev)
  with last show ?thesis by simp
qed simp

lemma strip_newline: "strip (l @ [CHR 0x0A]) = strip l"
proof -
  have lf: "isspace (CHR 0x0A)" by (simp add: isspace_def whitespace_chars_def)
  show ?thesis
  proof (cases "\<forall>c\<in>set l. isspace c")
    case True
    then have "dropWhile isspace l = []" by (rule dropWhile_none)
    moreover have "dropWhile isspace (l @ [CHR 0x0A]) = []"
      using True lf by (intro dropWhile_none) simp
    ultimately show ?thesis by (simp only: strip_def)
  next
    case False
    then obtain c where "c \<in> set l" and "\<not> isspace c" by blast
    then have "dropWhile isspace (l @ [CHR 0x0A]) = dropWhile isspace l @ [CHR 0x0A]"
      by (rule dropWhile_append1)
    then show ?thesis using lf by (simp add: strip_def)
  qed
qed

lemma universal_newlines_id: "CHR 0x0D \<notin> set s \<Longrightarrow> universal_newlines s = s"
  by (induction s rule: universal_newlines.induct) auto

lemma split_lines_line:
  "CHR 0x0A \<notin> set l \<Longrightarrow>
   split_lines cur (l @ CHR 0x0A # rest) = (cur @ l @ [CHR 0x0A]) # split_lines [] rest"
  by (induction l arbitrary: cur) auto

lemma split_lines_final:
  "CHR 0x0A \<notin> set l \<Longrightarrow> split_lines cur l = (if cur @ l = [] then [] else [cur @ l])"
  by (induction l arbitrary: cur) auto

lemma split_lines_text:
  "\<forall>l\<in>set ls. CHR 0x0A \<notin> set l \<Longrightarrow> CHR 0x0A \<notin> set final \<Longrightarrow>
   split_lines [] (concat (map (\<lambda>l. l @ [CHR 0x0A]) ls) @ final) =
     map (\<lambda>l. l @ [CHR 0x0A]) ls @ (if final = [] then [] else [final])"
proof (induction ls)
  case Nil
  then show ?case by (simp add: split_lines_final)
next
  case (Cons l ls)
  then show ?case by (simp add: split_lines_line)
qed

lemma readlines_text:
  assumes "\<forall>l\<in>set ls. CHR 0x0A \<notin> set l \<and> CHR 0x0D \<notin> set l"
    and "CHR 0x0A \<notin> set final \<and> CHR 0x0D \<notin> set final"
  shows "readlines (concat (map (\<lambda>l. l @ [CHR 0x0A]) ls) @ final) =
     map (\<lambda>l. l @ [CHR 0x0A]) ls @ (if final = [] then [] else [final])"
proof -
  have "CHR 0x0D \<notin> set (concat (map (\<lambda>l. l @ [CHR 0x0A]) ls) @ final)"
    using assms by auto
  then have "universal_newlines (concat (map (\<lambda>l. l @ [CHR 0x0A]) ls) @ final) =
      concat (map (\<lambda>l. l @ [CHR 0x0A]) ls) @ final"
    by (rule universal_newlines_id)
  then show ?thesis
    using assms by (simp add: readlines_def split_lines_text)
qed

lemmas file_defs =
  filter_stocks_def get_static_stocks_def open_read_def readlines_def strip_def isspace_def
  whitespace_chars_def dict_get_def entry_def Let_def

subsection \<open>The static list rule\<close>

text \<open>
  C3. With \<open>use_static_list: True\<close> and an allow-list that loads, \<open>filter_stocks\<close>
  returns the entries whose symbol is equal to an element of the loaded list, in input
  order: a subsequence of the input. Equality of strings is the only match there is.
\<close>

theorem static_list_keeps_listed_symbols:
  assumes "map_of rules ''use_static_list'' = Some (PyBool True)"
    and "get_static_stocks f = Inr static_stocks"
  shows "filter_stocks f tickers (Some rules) =
           (Inr (filter (\<lambda>t. symbol t \<in> set static_stocks) tickers), 1)
     \<and> subseq (filter (\<lambda>t. symbol t \<in> set static_stocks) tickers) tickers"
  using assms by (simp add: filter_stocks_def dict_get_def filter_loop_eq)

theorem static_list_keeps_listed_symbols_witness:
  "map_of [(''use_static_list'', PyBool True)] ''use_static_list'' = Some (PyBool True)
   \<and> get_static_stocks (Text ''AAPL\<newline>MSFT\<newline>'') = Inr [''AAPL'', ''MSFT'']
   \<and> filter_stocks (Text ''AAPL\<newline>MSFT\<newline>'')
        [entry ''MSFT'' ''amc'', entry ''aapl'' ''amc'', entry ''AAP'' ''bmo'',
         entry ''AAPLX'' ''bmo'', entry ''AAPL'' ''bmo'']
        (Some [(''use_static_list'', PyBool True)]) =
       (Inr [entry ''MSFT'' ''amc'', entry ''AAPL'' ''bmo''], 1)"
  using static_list_keeps_listed_symbols [of "[(''use_static_list'', PyBool True)]"
      "Text ''AAPL\<newline>MSFT\<newline>''" "[''AAPL'', ''MSFT'']"
      "[entry ''MSFT'' ''amc'', entry ''aapl'' ''amc'', entry ''AAP'' ''bmo'',
        entry ''AAPLX'' ''bmo'', entry ''AAPL'' ''bmo'']"]
  by (simp add: file_defs)

text \<open>
  C7. When no rule set is given, or the rule set has no \<open>use_static_list\<close> or has it
  \<open>False\<close>, \<open>filter_stocks\<close> returns its input and does not open the allow-list
  file, whatever the state of that file.
\<close>

theorem no_static_list_is_identity:
  assumes "rules_arg = None \<or>
     (\<exists>rules. rules_arg = Some rules \<and>
        (map_of rules ''use_static_list'' = None \<or>
         map_of rules ''use_static_list'' = Some (PyBool False)))"
  shows "filter_stocks f tickers rules_arg = (Inr tickers, 0)"
  using assms by (auto simp add: filter_stocks_def dict_get_def filter_loop_eq)

theorem no_static_list_is_identity_witness:
  "filter_stocks Missing [entry ''MSFT'' ''amc'', entry ''XYZ'' ''bmo''] None =
     (Inr [entry ''MSFT'' ''amc'', entry ''XYZ'' ''bmo''], 0)
   \<and> filter_stocks Missing [entry ''MSFT'' ''amc'', entry ''XYZ'' ''bmo''] (Some []) =
     (Inr [entry ''MSFT'' ''amc'', entry ''XYZ'' ''bmo''], 0)
   \<and> filter_stocks (Text ''AAPL'') [entry ''MSFT'' ''amc'', entry ''XYZ'' ''bmo'']
        (Some [(''use_static_list'', PyBool False)]) =
     (Inr [entry ''MSFT'' ''amc'', entry ''XYZ'' ''bmo''], 0)"
  using no_static_list_is_identity [of None Missing "[entry ''MSFT'' ''amc'', entry ''XYZ'' ''bmo'']"]
    no_static_list_is_identity [of "Some []" Missing "[entry ''MSFT'' ''amc'', entry ''XYZ'' ''bmo'']"]
    no_static_list_is_identity [of "Some [(''use_static_list'', PyBool False)]" "Text ''AAPL''"
      "[entry ''MSFT'' ''amc'', entry ''XYZ'' ''bmo'']"]
  by simp

text \<open>
  C9. With \<open>use_static_list: True\<close> and an allow-list file that cannot be opened or
  read, \<open>filter_stocks\<close> ends with the exception of the read instead of a list; this
  differs from what an empty allow-list gives.
\<close>

theorem unreadable_allow_list_propagates:
  assumes "map_of rules ''use_static_list'' = Some (PyBool True)"
    and "open_read f = Inl e"
  shows "filter_stocks f tickers (Some rules) = (Inl e, 1)
     \<and> fst (filter_stocks f tickers (Some rules)) \<noteq>
         fst (filter_stocks (Text []) tickers (Some rules))"
  using assms by (simp add: filter_stocks_def dict_get_def get_static_stocks_def open_read_def)

theorem unreadable_allow_list_propagates_witness:
  "map_of [(''use_static_list'', PyBool True)] ''use_static_list'' = Some (PyBool True)
   \<and> open_read Missing = Inl FileNotFoundError
   \<and> open_read Denied = Inl PermissionError
   \<and> filter_stocks Missing [entry ''AAPL'' ''bmo'']
        (Some [(''use_static_list'', PyBool True)]) = (Inl FileNotFoundError, 1)
   \<and> filter_stocks Denied [entry ''AAPL'' ''bmo'']
        (Some [(''use_static_list'', PyBool True)]) = (Inl PermissionError, 1)
   \<and> filter_stocks (Text []) [entry ''AAPL'' ''bmo'']
        (Some [(''use_static_list'', PyBool True)]) = (Inr [], 1)"
  using unreadable_allow_list_propagates [of "[(''use_static_list'', PyBool True)]" Missing
      FileNotFoundError "[entry ''AAPL'' ''bmo'']"]
    unreadable_allow_list_propagates [of "[(''use_static_list'', PyBool True)]" Denied
      PermissionError "[entry ''AAPL'' ''bmo'']"]
  by (simp add: file_defs)

text \<open>
  C10. For a file made of the lines \<open>ls\<close>, each ended by a newline, and a last line
  \<open>final\<close> without one, \<open>get_static_stocks\<close> returns the lines stripped of leading
  and trailing whitespace, in order, and the filter keeps the entries whose symbol is one
  of the stripped lines. Stripping removes whitespace around a text that neither starts
  nor ends with whitespace and leaves that text, so a padded line matches its symbol; it
  turns a line of whitespace only into the empty string, which then admits an entry with
  the empty symbol.
\<close>

theorem allow_list_lines_are_stripped:
  assumes "\<forall>l\<in>set ls. CHR 0x0A \<notin> set l \<and> CHR 0x0D \<notin> set l"
    and "CHR 0x0A \<notin> set final \<and> CHR 0x0D \<notin> set final"
    and "map_of rules ''use_static_list'' = Some (PyBool True)"
  shows "get_static_stocks (Text (concat (map (\<lambda>l. l @ [CHR 0x0A]) ls) @ final)) =
           Inr (map strip (ls @ (if final = [] then [] else [final])))
     \<and> fst (filter_stocks (Text (concat (map (\<lambda>l. l @ [CHR 0x0A]) ls) @ final)) tickers
              (Some rules)) =
           Inr (filter (\<lambda>t. symbol t \<in> strip ` set (ls @ (if final = [] then [] else [final])))
                  tickers)
     \<and> (\<forall>p s q. (\<forall>c\<in>set p. isspace c) \<and> (\<forall>c\<in>set q. isspace c) \<and>
                 (s = [] \<or> (\<not> isspace (hd s) \<and> \<not> isspace (last s)))
                 \<longrightarrow> strip (p @ s @ q) = s)
     \<and> (\<forall>l. strip l = [] \<or> (\<not> isspace (hd (strip l)) \<and> \<not> isspace (last (strip l))))"
proof -
  let ?text = "concat (map (\<lambda>l. l @ [CHR 0x0A]) ls) @ final"
  let ?lines = "ls @ (if final = [] then [] else [final])"
  have "readlines ?text = map (\<lambda>l. l @ [CHR 0x0A]) ls @ (if final = [] then [] else [final])"
    using assms(1,2) by (rule readlines_text)
  then have loaded: "get_static_stocks (Text ?text) = Inr (map strip ?lines)"
    by (simp add: get_static_stocks_def open_read_def strip_newline)
  have "filter_stocks (Text ?text) tickers (Some rules) =
          (Inr (filter (\<lambda>t. symbol t \<in> set (map strip ?lines)) tickers), 1)"
    using assms(3) loaded
    by (simp only: filter_stocks_def dict_get_def filter_loop_eq Let_def option.case sum.case
          truthy.simps pyval.case if_True simp_thms append_Nil)
  then have kept: "fst (filter_stocks (Text ?text) tickers (Some rules)) =
          Inr (filter (\<lambda>t. symbol t \<in> strip ` set ?lines) tickers)"
    by (simp only: fst_conv set_map)
  have padded: "\<forall>p s q. (\<forall>c\<in>set p. isspace c) \<and> (\<forall>c\<in>set q. isspace c) \<and>
                 (s = [] \<or> (\<not> isspace (hd s) \<and> \<not> isspace (last s)))
                 \<longrightarrow> strip (p @ s @ q) = s"
    using strip_padded by blast
  have edges: "\<forall>l. strip l = [] \<or> (\<not> isspace (hd (strip l)) \<and> \<not> isspace (last (strip l)))"
    using strip_edges by blast
  from loaded kept padded edges show ?thesis by (intro conjI)
qed

theorem allow_list_lines_are_stripped_witness:
  "CHR 0x0A \<notin> set '' AAPL  '' \<and> CHR 0x0D \<notin> set '' AAPL  ''
   \<and> CHR 0x0A \<notin> set ''MSFT'' \<and> CHR 0x0D \<notin> set ''MSFT''
   \<and> CHR 0x0A \<notin> set '' GOOG'' \<and> CHR 0x0D \<notin> set '' GOOG''
   \<and> map_of [(''use_static_list'', PyBool True)] ''use_static_list'' = Some (PyBool True)
   \<and> get_static_stocks (Text '' AAPL  \<newline>\<newline>MSFT\<newline> GOOG'') =
        Inr [''AAPL'', '''', ''MSFT'', ''GOOG'']
   \<and> fst (filter_stocks (Text '' AAPL  \<newline>\<newline>MSFT\<newline> GOOG'')
        [entry ''AAPL'' ''bmo'', entry '''' ''amc'', entry '' AAPL  '' ''amc'',
         entry ''XYZ'' ''amc'']
        (Some [(''use_static_list'', PyBool True)])) =
        Inr [entry ''AAPL'' ''bmo'', entry '''' ''amc'']"
  using allow_list_lines_are_stripped [of "['' AAPL  '', '''', ''MSFT'']" "'' GOOG''"
      "[(''use_static_list'', PyBool True)]"
      "[entry ''AAPL'' ''bmo'', entry '''' ''amc'', entry '' AAPL  '' ''amc'',
        entry ''XYZ'' ''amc'']"]
  by (simp add: file_defs)

section \<open>Calendar resolver\<close>

lemmas date_defs =
  get_earnings_for_date_def strptime_ymd_def take_year_def take_hyphen_def digit_of_def
  days_in_month_def is_leap_def df_empty_def row_get_def sample_calendar_def sample_today_def

text \<open>
  C8. For a date string that \<open>strptime\<close> rejects, \<open>get_earnings_for_date\<close> returns
  the empty list (it does not raise) and the calendar source is not queried.
\<close>

theorem malformed_date_gives_empty:
  assumes "strptime_ymd date_str = None"
  shows "get_earnings_for_date get_earnings_by_date today (Some date_str) = ([], [])"
  using assms by (simp add: get_earnings_for_date_def)

theorem malformed_date_gives_empty_witness:
  "strptime_ymd ''Jul 24 2025'' = None
   \<and> get_earnings_for_date sample_calendar sample_today (Some ''Jul 24 2025'') = ([], [])
   \<and> strptime_ymd ''2025-07-32'' = None
   \<and> get_earnings_for_date sample_calendar sample_today (Some ''2025-07-32'') = ([], [])
   \<and> get_earnings_for_date sample_calendar sample_today (Some ''2025-07-24'') =
        ([\<lparr>symbol = ''AAPL'', time = ''time-pre-market''\<rparr>,
          \<lparr>symbol = ''MSFT'', time = ''time-after-hours''\<rparr>],
         [\<lparr>year = 2025, month = 7, day = 24\<rparr>])"
  using malformed_date_gives_empty [of "''Jul 24 2025''" sample_calendar sample_today]
    malformed_date_gives_empty [of "''2025-07-32''" sample_calendar sample_today]
  by (simp add: date_defs)

end
